theory Spec2Isabelle
  imports Complex_Main "HOL-Library.AList" "HOL-Library.Sublist"
begin

section \<open>The room server (src/server.js) as a state-passing model\<close>

text \<open>
  The server keeps one process-wide \<^verbatim>\<open>rooms\<close> Map from room code to room object and,
  per connection, a \<^verbatim>\<open>socket\<close> object carrying \<^verbatim>\<open>socket.id\<close> and the ad-hoc
  property \<^verbatim>\<open>socket.roomCode\<close>. Every handler runs to completion on the single
  JavaScript event loop, so a handler is a function from the socket, its payload and
  the registry to the updated socket, the updated registry and the list of events it
  emits, in emission order. \<^verbatim>\<open>Math.random()\<close>, \<^verbatim>\<open>Date.now()\<close> and \<^verbatim>\<open>uuidv4()\<close> are
  inputs of the handler that calls them. \<^verbatim>\<open>console.log\<close> is left out. Payloads are
  taken well-formed: the destructured fields are present and of the expected type.
\<close>

subsection \<open>JavaScript values, objects and Maps\<close>

datatype jsval = JNull | JBool bool | JNum real | JStr string

text \<open>A plain object (\<^verbatim>\<open>action\<close>, \<^verbatim>\<open>videoState\<close>): property name to value.\<close>

type_synonym jsobj = "string \<rightharpoonup> jsval"

text \<open>
  A JavaScript \<^verbatim>\<open>Map\<close> iterates in insertion order; \<^verbatim>\<open>set\<close> on a present key
  replaces the value where it stands and on an absent key appends; \<^verbatim>\<open>delete\<close>
  removes the entry. It is an association list in insertion order.
\<close>

type_synonym 'v jsmap = "(string \<times> 'v) list"

definition jm_get :: "'v jsmap \<Rightarrow> string \<Rightarrow> 'v option" where
  "jm_get m k = map_of m k"

definition jm_has :: "'v jsmap \<Rightarrow> string \<Rightarrow> bool" where
  "jm_has m k = (jm_get m k \<noteq> None)"

definition jm_set :: "'v jsmap \<Rightarrow> string \<Rightarrow> 'v \<Rightarrow> 'v jsmap" where
  "jm_set m k v = AList.update k v m"

definition jm_delete :: "'v jsmap \<Rightarrow> string \<Rightarrow> 'v jsmap" where
  "jm_delete m k = AList.delete k m"

definition jm_size :: "'v jsmap \<Rightarrow> nat" where
  "jm_size m = length m"

definition jm_keys :: "'v jsmap \<Rightarrow> string list" where
  "jm_keys m = map fst m"

definition jm_values :: "'v jsmap \<Rightarrow> 'v list" where
  "jm_values m = map snd m"

text \<open>\<^verbatim>\<open>xs.slice(-n)\<close>: the last \<open>n\<close> elements, the whole array when it is shorter.\<close>

definition slice_last :: "nat \<Rightarrow> 'a list \<Rightarrow> 'a list" where
  "slice_last n xs = drop (length xs - n) xs"

subsection \<open>Number to string\<close>

definition digit_char :: "nat \<Rightarrow> char" where
  "digit_char d = ''0123456789'' ! d"

fun digits :: "nat \<Rightarrow> string" where
  "digits n = (if n < 10 then [digit_char n] else digits (n div 10) @ [digit_char (n mod 10)])"

declare digits.simps [simp del]

text \<open>\<^verbatim>\<open>Number.prototype.toString\<close> on an integral value.\<close>

definition toString :: "int \<Rightarrow> string" where
  "toString i = (if i < 0 then CHR ''-'' # digits (nat (- i)) else digits (nat i))"

text \<open>Reading a decimal string back, to say which number a code denotes.\<close>

definition digit_val :: "char \<Rightarrow> nat" where
  "digit_val c = of_char c - of_char CHR ''0''"

definition parseDec :: "string \<Rightarrow> nat" where
  "parseDec s = foldl (\<lambda>acc c. 10 * acc + digit_val c) 0 s"

definition is_digit :: "char \<Rightarrow> bool" where
  "is_digit c = (c \<in> set ''0123456789'')"

subsection \<open>Data model\<close>

record member =
  nickname :: string
  isHost :: bool

record chatMessage =
  chat_id :: string
  chat_nickname :: string
  chat_message :: string
  chat_timestamp :: int
  chat_isHost :: bool

record room =
  code :: string
  host :: string
  hostNickname :: string
  members :: "member jsmap"
  currentEpisode :: jsval
  animeId :: jsval
  videoState :: jsobj
  chat :: "chatMessage list"

text \<open>
  The socket: \<^verbatim>\<open>socket.id\<close>, the topics it was subscribed to by \<^verbatim>\<open>socket.join\<close>, and
  \<^verbatim>\<open>socket.roomCode\<close> (\<open>None\<close> while the property is undefined).
\<close>

record socket =
  sid :: string
  joined :: "string set"
  roomCode :: "string option"

text \<open>
  Outbound events. The audience is the transport call that sends it:
  \<^verbatim>\<open>socket.emit\<close> (the origin only), \<^verbatim>\<open>io.to(roomCode).emit\<close> (every subscriber of the
  topic) and \<^verbatim>\<open>socket.to(roomCode).emit\<close> (every subscriber but the origin).
\<close>

datatype audience = ToSocket string | ToRoom string | ToRoomExcept string string

datatype event =
    RoomCreated string bool "member list"
  | Error string
  | UserJoined string "member list"
  | RoomJoined string bool jsval jsval jsobj "member list" "chatMessage list"
  | VideoAction jsobj
  | ChangeEpisode jsval jsval
  | ChatMessage chatMessage
  | RoomInfo "member list" jsval jsval jsobj
  | NewHost string string "member list"
  | UserLeft "string option" "member list"

type_synonym emit = "audience \<times> event"

subsection \<open>Handlers\<close>

text \<open>
  JavaScript numbers are IEEE 754 doubles, and \<^verbatim>\<open>*\<close> and \<^verbatim>\<open>+\<close> round the exact result to
  the nearest double, ties to the even significand. A double is modelled as the real
  number it denotes. \<open>round_even\<close> rounds to the nearest integer, ties to even;
  \<open>dexp x e\<close> searches downwards from \<open>e\<close> for the binary exponent of \<open>x\<close>, stopping at
  \<open>-1022\<close>, the exponent of the subnormal range; \<open>round_double\<close> rounds to 53 significant
  bits at that exponent. Magnitudes beyond the largest double do not occur here and
  are not treated.
\<close>

definition round_even :: "real \<Rightarrow> int" where
  "round_even y =
     (let f = \<lfloor>y\<rfloor>; d = y - of_int f
      in if d < 1 / 2 then f else if 1 / 2 < d then f + 1 else if even f then f else f + 1)"

function dexp :: "real \<Rightarrow> int \<Rightarrow> int" where
  "dexp x e = (if e \<le> - 1022 \<or> 2 powi e \<le> x then e else dexp x (e - 1))"
  by pat_completeness auto
termination
  by (relation "measure (\<lambda>(x, e). nat (e + 1022))") auto

declare dexp.simps [simp del]

definition round_double :: "real \<Rightarrow> real" where
  "round_double x =
     (let q = dexp \<bar>x\<bar> 1023 - 52
      in sgn x * of_int (round_even (\<bar>x\<bar> / 2 powi q)) * 2 powi q)"

definition is_double :: "real \<Rightarrow> bool" where
  "is_double x = (round_double x = x)"

text \<open>
  \<^verbatim>\<open>Math.floor(10000 + Math.random() * 90000).toString()\<close>, the sample being \<open>rnd\<close>: the
  product is rounded, then the sum is rounded, then the floor is taken.
\<close>

definition generateRoomCode :: "real \<Rightarrow> string" where
  "generateRoomCode rnd = toString \<lfloor>round_double (10000 + round_double (rnd * 90000))\<rfloor>"

definition createRoom ::
  "socket \<Rightarrow> string \<Rightarrow> real \<Rightarrow> int \<Rightarrow> room jsmap \<Rightarrow> socket \<times> room jsmap \<times> emit list" where
  "createRoom socket nick rnd now rooms =
     (let rc = generateRoomCode rnd;
          room = \<lparr>code = rc, host = sid socket, hostNickname = nick,
                  members = [(sid socket, \<lparr>nickname = nick, isHost = True\<rparr>)],
                  currentEpisode = JNull, animeId = JNull,
                  videoState = [''isPlaying'' \<mapsto> JBool False, ''currentTime'' \<mapsto> JNum 0,
                                ''lastUpdate'' \<mapsto> JNum (of_int now)],
                  chat = []\<rparr>;
          rooms' = jm_set rooms rc room;
          socket' = socket\<lparr>joined := insert rc (joined socket), roomCode := Some rc\<rparr>
      in (socket', rooms',
          [(ToSocket (sid socket), RoomCreated rc True (jm_values (members room)))]))"

definition joinRoom ::
  "socket \<Rightarrow> string \<Rightarrow> string \<Rightarrow> room jsmap \<Rightarrow> socket \<times> room jsmap \<times> emit list" where
  "joinRoom socket rc nick rooms =
     (case jm_get rooms rc of
        None \<Rightarrow> (socket, rooms, [(ToSocket (sid socket), Error ''Room not found'')])
      | Some room \<Rightarrow>
          if jm_size (members room) \<ge> 10
          then (socket, rooms, [(ToSocket (sid socket), Error ''Room is full'')])
          else
            (let room' = room\<lparr>members :=
                            jm_set (members room) (sid socket) \<lparr>nickname = nick, isHost = False\<rparr>\<rparr>;
                 rooms' = jm_set rooms rc room';
                 socket' = socket\<lparr>joined := insert rc (joined socket), roomCode := Some rc\<rparr>
             in (socket', rooms',
                 [(ToRoom rc, UserJoined nick (jm_values (members room'))),
                  (ToSocket (sid socket),
                   RoomJoined rc False (currentEpisode room') (animeId room') (videoState room')
                     (jm_values (members room')) (slice_last 50 (chat room')))])))"

text \<open>
  \<^verbatim>\<open>rooms.get(socket.roomCode)\<close>: no room is stored under \<^verbatim>\<open>undefined\<close>, so an unbound
  socket resolves to no room.
\<close>

definition resolveRoom :: "socket \<Rightarrow> room jsmap \<Rightarrow> (string \<times> room) option" where
  "resolveRoom socket rooms =
     (case roomCode socket of
        None \<Rightarrow> None
      | Some rc \<Rightarrow> (case jm_get rooms rc of None \<Rightarrow> None | Some room \<Rightarrow> Some (rc, room)))"

definition videoAction :: "socket \<Rightarrow> jsobj \<Rightarrow> int \<Rightarrow> room jsmap \<Rightarrow> room jsmap \<times> emit list" where
  "videoAction socket action now rooms =
     (case resolveRoom socket rooms of
        None \<Rightarrow> (rooms, [])
      | Some (rc, room) \<Rightarrow>
          if host room \<noteq> sid socket then (rooms, [])
          else
            (let room' = room\<lparr>videoState := action(''lastUpdate'' \<mapsto> JNum (of_int now))\<rparr>
             in (jm_set rooms rc room',
                 [(ToRoomExcept rc (sid socket), VideoAction action)])))"

definition changeEpisode :: "socket \<Rightarrow> jsval \<Rightarrow> jsval \<Rightarrow> room jsmap \<Rightarrow> room jsmap \<times> emit list" where
  "changeEpisode socket episodeId animeId' rooms =
     (case resolveRoom socket rooms of
        None \<Rightarrow> (rooms, [])
      | Some (rc, room) \<Rightarrow>
          if host room \<noteq> sid socket then (rooms, [])
          else
            (let room' = room\<lparr>currentEpisode := episodeId, animeId := animeId'\<rparr>
             in (jm_set rooms rc room', [(ToRoom rc, ChangeEpisode episodeId animeId')])))"

definition chatMessage ::
  "socket \<Rightarrow> string \<Rightarrow> string \<Rightarrow> int \<Rightarrow> room jsmap \<Rightarrow> room jsmap \<times> emit list" where
  "chatMessage socket message uuid now rooms =
     (case resolveRoom socket rooms of
        None \<Rightarrow> (rooms, [])
      | Some (rc, room) \<Rightarrow>
          (case jm_get (members room) (sid socket) of
             None \<Rightarrow> (rooms, [])
           | Some member \<Rightarrow>
               (let msg = \<lparr>chat_id = uuid, chat_nickname = nickname member,
                           chat_message = message, chat_timestamp = now,
                           chat_isHost = isHost member\<rparr>;
                    pushed = chat room @ [msg];
                    kept = (if length pushed > 100 then slice_last 100 pushed else pushed);
                    room' = room\<lparr>chat := kept\<rparr>
                in (jm_set rooms rc room', [(ToRoom rc, ChatMessage msg)]))))"

definition getRoomInfo :: "socket \<Rightarrow> string \<Rightarrow> room jsmap \<Rightarrow> room jsmap \<times> emit list" where
  "getRoomInfo socket rc rooms =
     (case jm_get rooms rc of
        Some room \<Rightarrow>
          (rooms, [(ToSocket (sid socket),
                    RoomInfo (jm_values (members room)) (currentEpisode room) (animeId room)
                      (videoState room))])
      | None \<Rightarrow> (rooms, [(ToSocket (sid socket), Error ''Room not found'')]))"

text \<open>
  The disconnect handler. \<^verbatim>\<open>if (roomCode)\<close> is JavaScript truthiness: undefined and the
  empty string both skip the body. \<^verbatim>\<open>room.members.keys().next().value\<close> is the first
  key in insertion order; the branch that reads it runs only when the Map is not empty,
  so the two \<open>(rooms, [])\<close> alternatives of the inner case distinctions are never taken.
\<close>

definition disconnect :: "socket \<Rightarrow> room jsmap \<Rightarrow> room jsmap \<times> emit list" where
  "disconnect socket rooms =
     (case roomCode socket of
        None \<Rightarrow> (rooms, [])
      | Some rc \<Rightarrow>
          if rc = [] then (rooms, [])
          else
            (case jm_get rooms rc of
               None \<Rightarrow> (rooms, [])
             | Some room \<Rightarrow>
                 (let member = jm_get (members room) (sid socket);
                      ms = jm_delete (members room) (sid socket)
                  in if jm_size ms = 0 then (jm_delete rooms rc, [])
                     else if host room = sid socket then
                       (case jm_keys ms of
                          [] \<Rightarrow> (rooms, [])
                        | newHost # _ \<Rightarrow>
                            (case jm_get ms newHost of
                               None \<Rightarrow> (rooms, [])
                             | Some newHostMember \<Rightarrow>
                                 (let ms' = jm_set ms newHost (newHostMember\<lparr>isHost := True\<rparr>);
                                      room' = room\<lparr>host := newHost, members := ms'\<rparr>
                                  in (jm_set rooms rc room',
                                      [(ToRoom rc,
                                        NewHost newHost (nickname newHostMember) (jm_values ms')),
                                       (ToRoom rc,
                                        UserLeft (map_option nickname member) (jm_values ms'))]))))
                     else
                       (jm_set rooms rc (room\<lparr>members := ms\<rparr>),
                        [(ToRoom rc, UserLeft (map_option nickname member) (jm_values ms))]))))"

subsection \<open>The server as a whole\<close>

text \<open>
  The state: the registry and the sockets now connected, by id. An input is one event the
  transport delivers; events naming an id that is not connected, and a connection with
  an id in use, do not occur and leave the state alone. A disconnected socket is dropped.
\<close>

record state =
  st_rooms :: "room jsmap"
  st_sockets :: "string \<rightharpoonup> socket"

datatype input =
    Connect string
  | CreateRoomIn string string real int
  | JoinRoomIn string string string
  | VideoActionIn string jsobj int
  | ChangeEpisodeIn string jsval jsval
  | ChatMessageIn string string string int
  | GetRoomInfoIn string string
  | DisconnectIn string

definition init :: state where
  "init = \<lparr>st_rooms = [], st_sockets = Map.empty\<rparr>"

fun step :: "state \<Rightarrow> input \<Rightarrow> state \<times> emit list" where
  "step s (Connect i) =
     (case st_sockets s i of
        None \<Rightarrow> (s\<lparr>st_sockets := (st_sockets s)(i \<mapsto> \<lparr>sid = i, joined = {}, roomCode = None\<rparr>)\<rparr>, [])
      | Some _ \<Rightarrow> (s, []))"
| "step s (CreateRoomIn i nick rnd now) =
     (case st_sockets s i of
        None \<Rightarrow> (s, [])
      | Some socket \<Rightarrow>
          (case createRoom socket nick rnd now (st_rooms s) of
             (socket', rooms', out) \<Rightarrow>
               (\<lparr>st_rooms = rooms', st_sockets = (st_sockets s)(i \<mapsto> socket')\<rparr>, out)))"
| "step s (JoinRoomIn i rc nick) =
     (case st_sockets s i of
        None \<Rightarrow> (s, [])
      | Some socket \<Rightarrow>
          (case joinRoom socket rc nick (st_rooms s) of
             (socket', rooms', out) \<Rightarrow>
               (\<lparr>st_rooms = rooms', st_sockets = (st_sockets s)(i \<mapsto> socket')\<rparr>, out)))"
| "step s (VideoActionIn i action now) =
     (case st_sockets s i of
        None \<Rightarrow> (s, [])
      | Some socket \<Rightarrow>
          (case videoAction socket action now (st_rooms s) of
             (rooms', out) \<Rightarrow> (s\<lparr>st_rooms := rooms'\<rparr>, out)))"
| "step s (ChangeEpisodeIn i episodeId animeId') =
     (case st_sockets s i of
        None \<Rightarrow> (s, [])
      | Some socket \<Rightarrow>
          (case changeEpisode socket episodeId animeId' (st_rooms s) of
             (rooms', out) \<Rightarrow> (s\<lparr>st_rooms := rooms'\<rparr>, out)))"
| "step s (ChatMessageIn i message uuid now) =
     (case st_sockets s i of
        None \<Rightarrow> (s, [])
      | Some socket \<Rightarrow>
          (case chatMessage socket message uuid now (st_rooms s) of
             (rooms', out) \<Rightarrow> (s\<lparr>st_rooms := rooms'\<rparr>, out)))"
| "step s (GetRoomInfoIn i rc) =
     (case st_sockets s i of
        None \<Rightarrow> (s, [])
      | Some socket \<Rightarrow>
          (case getRoomInfo socket rc (st_rooms s) of
             (rooms', out) \<Rightarrow> (s\<lparr>st_rooms := rooms'\<rparr>, out)))"
| "step s (DisconnectIn i) =
     (case st_sockets s i of
        None \<Rightarrow> (s, [])
      | Some socket \<Rightarrow>
          (case disconnect socket (st_rooms s) of
             (rooms', out) \<Rightarrow> (\<lparr>st_rooms = rooms', st_sockets = (st_sockets s)(i := None)\<rparr>, out)))"

text \<open>The state after a sequence of inputs, first input first.\<close>

fun run :: "state \<Rightarrow> input list \<Rightarrow> state" where
  "run s [] = s"
| "run s (i # ins) = run (fst (step s i)) ins"

text \<open>How many entries of a members Map are flagged host.\<close>

definition host_count :: "member jsmap \<Rightarrow> nat" where
  "host_count ms = length (filter (\<lambda>(k, m). isHost m) ms)"

subsection \<open>A small room used in the examples\<close>

text \<open>
  Room 10000 as it stands after Alice (socket A) created it and Bob (socket B) joined;
  Carol (socket C) is connected and in no room. Room 55000 is Dave's. The busy room is
  room 10000 with 100 chat messages stored, the full room is room 10000 with 10
  members. The example inputs lead from the empty server to room 10000 with Alice, Bob
  and Carol in it.
\<close>

definition ex_alice :: socket where
  "ex_alice = \<lparr>sid = ''A'', joined = {''10000''}, roomCode = Some ''10000''\<rparr>"

definition ex_bob :: socket where
  "ex_bob = \<lparr>sid = ''B'', joined = {''10000''}, roomCode = Some ''10000''\<rparr>"

definition ex_carol :: socket where
  "ex_carol = \<lparr>sid = ''C'', joined = {}, roomCode = None\<rparr>"

definition ex_room :: room where
  "ex_room = \<lparr>code = ''10000'', host = ''A'', hostNickname = ''Alice'',
              members = [(''A'', \<lparr>nickname = ''Alice'', isHost = True\<rparr>),
                         (''B'', \<lparr>nickname = ''Bob'', isHost = False\<rparr>)],
              currentEpisode = JNull, animeId = JNull,
              videoState = [''isPlaying'' \<mapsto> JBool False, ''currentTime'' \<mapsto> JNum 0,
                            ''lastUpdate'' \<mapsto> JNum 0],
              chat = []\<rparr>"

definition ex_rooms :: "room jsmap" where
  "ex_rooms = [(''10000'', ex_room)]"

definition ex_action :: jsobj where
  "ex_action = [''isPlaying'' \<mapsto> JBool True, ''currentTime'' \<mapsto> JNum (85 / 2)]"



definition ex_busy_room :: room where
  "ex_busy_room = ex_room\<lparr>chat :=
     map (\<lambda>n. \<lparr>chat_id = digits n, chat_nickname = ''Alice'', chat_message = ''hello'',
                chat_timestamp = int n, chat_isHost = True\<rparr>) [0..<100]\<rparr>"

definition ex_full_room :: room where
  "ex_full_room = ex_room\<lparr>members :=
     [(''A'', \<lparr>nickname = ''Alice'', isHost = True\<rparr>),
      (''B'', \<lparr>nickname = ''Bob'', isHost = False\<rparr>),
      (''D'', \<lparr>nickname = ''Dave'', isHost = False\<rparr>),
      (''E'', \<lparr>nickname = ''Erin'', isHost = False\<rparr>),
      (''F'', \<lparr>nickname = ''Frank'', isHost = False\<rparr>),
      (''G'', \<lparr>nickname = ''Grace'', isHost = False\<rparr>),
      (''H'', \<lparr>nickname = ''Heidi'', isHost = False\<rparr>),
      (''I'', \<lparr>nickname = ''Ivan'', isHost = False\<rparr>),
      (''J'', \<lparr>nickname = ''Judy'', isHost = False\<rparr>),
      (''K'', \<lparr>nickname = ''Ken'', isHost = False\<rparr>)]\<rparr>"

definition ex_inputs :: "input list" where
  "ex_inputs = [Connect ''A'', CreateRoomIn ''A'' ''Alice'' 0 0, Connect ''B'',
     JoinRoomIn ''B'' ''10000'' ''Bob'', Connect ''C'', JoinRoomIn ''C'' ''10000'' ''Carol'']"

definition ex_room3 :: room where
  "ex_room3 = \<lparr>code = ''10000'', host = ''A'', hostNickname = ''Alice'',
              members = [(''A'', \<lparr>nickname = ''Alice'', isHost = True\<rparr>),
                         (''B'', \<lparr>nickname = ''Bob'', isHost = False\<rparr>),
                         (''C'', \<lparr>nickname = ''Carol'', isHost = False\<rparr>)],
              currentEpisode = JNull, animeId = JNull,
              videoState = [''isPlaying'' \<mapsto> JBool False, ''currentTime'' \<mapsto> JNum 0,
                            ''lastUpdate'' \<mapsto> JNum 0],
              chat = []\<rparr>"

subsection \<open>Registry invariant\<close>

text \<open>
  What holds of every entry of the registry in every state the server can reach: the
  code is not the empty string, the chat array has at most 100 messages, the members
  Map has pairwise different keys, at most 10 of them and at least one.
\<close>

definition reg_all :: "(string \<Rightarrow> room \<Rightarrow> bool) \<Rightarrow> room jsmap \<Rightarrow> bool" where
  "reg_all P rooms = list_all (\<lambda>(k, r). P k r) rooms"

definition room_ok :: "string \<Rightarrow> room \<Rightarrow> bool" where
  "room_ok k r \<longleftrightarrow>
     k \<noteq> [] \<and> length (chat r) \<le> 100 \<and> distinct (jm_keys (members r))
     \<and> jm_size (members r) \<le> 10 \<and> members r \<noteq> []"

subsection \<open>The host flag\<close>

text \<open>
  The ids of the entries of a members Map whose \<^verbatim>\<open>isHost\<close> is true, in Map order. A room
  is well flagged when this list is exactly \<^verbatim>\<open>[room.host]\<close>: one entry is flagged, and
  it is the one stored under the room's host id.
\<close>

definition host_ids :: "member jsmap \<Rightarrow> string list" where
  "host_ids ms = map fst (filter (\<lambda>(k, m). isHost m) ms)"

definition host_ok :: "string \<Rightarrow> room \<Rightarrow> bool" where
  "host_ok k r \<longleftrightarrow> host_ids (members r) = [host r]"

text \<open>
  An input is a host re-join when it is a \<^verbatim>\<open>joinRoom\<close> for a live room sent by the socket
  that is this room's \<^verbatim>\<open>host\<close>. A sequence of inputs is free of them when no input is
  one in the state it is handled in.
\<close>

definition host_rejoin :: "state \<Rightarrow> input \<Rightarrow> bool" where
  "host_rejoin s inp =
     (case inp of
        JoinRoomIn i rc nick \<Rightarrow>
          (case st_sockets s i of
             None \<Rightarrow> False
           | Some socket \<Rightarrow>
               (case jm_get (st_rooms s) rc of
                  None \<Rightarrow> False
                | Some room \<Rightarrow> host room = sid socket))
      | _ \<Rightarrow> False)"

fun no_host_rejoin :: "state \<Rightarrow> input list \<Rightarrow> bool" where
  "no_host_rejoin s [] = True"
| "no_host_rejoin s (i # ins) = (\<not> host_rejoin s i \<and> no_host_rejoin (fst (step s i)) ins)"

section \<open>Basic facts\<close>

lemmas handler_defs = createRoom_def joinRoom_def videoAction_def changeEpisode_def
  chatMessage_def getRoomInfo_def disconnect_def resolveRoom_def

lemmas jm_defs = jm_get_def jm_has_def jm_set_def jm_delete_def jm_size_def jm_keys_def
  jm_values_def

lemmas ex_defs = ex_alice_def ex_bob_def ex_carol_def ex_room_def ex_rooms_def ex_action_def

lemma jm_get_set: "jm_get (jm_set m k v) k' = (if k' = k then Some v else jm_get m k')"
  by (simp add: jm_get_def jm_set_def update_conv')

lemma jm_get_delete: "jm_get (jm_delete m k) k' = (if k' = k then None else jm_get m k')"
  by (simp add: jm_get_def jm_delete_def delete_conv')

lemma jm_get_in_set: "jm_get m k = Some v \<Longrightarrow> (k, v) \<in> set m"
  by (simp add: jm_get_def map_of_SomeD)

lemma jm_keys_set_present: "jm_get m k = Some v' \<Longrightarrow> jm_keys (jm_set m k v) = jm_keys m"
  by (auto simp: jm_set_def jm_keys_def update_keys dest!: jm_get_in_set
      intro: image_eqI [where x = "(k, v')"])

lemma resolveRoom_Some:
  "resolveRoom socket rooms = Some (rc, room) \<longleftrightarrow>
     roomCode socket = Some rc \<and> jm_get rooms rc = Some room"
  by (auto simp: resolveRoom_def split: option.splits)

subsection \<open>Double arithmetic\<close>

lemma round_even_of_int: "round_even (of_int k) = k"
  by (simp add: round_even_def)

lemma round_even_low: "y - of_int \<lfloor>y\<rfloor> < 1 / 2 \<Longrightarrow> round_even y = \<lfloor>y\<rfloor>"
  by (simp add: round_even_def)

lemma round_even_bounds: "\<lfloor>y\<rfloor> \<le> round_even y" "round_even y \<le> \<lfloor>y\<rfloor> + 1"
  by (simp_all add: round_even_def Let_def)

lemma round_even_mono:
  assumes "x \<le> y"
  shows "round_even x \<le> round_even y"
proof (cases "\<lfloor>x\<rfloor> = \<lfloor>y\<rfloor>")
  case True
  with assms show ?thesis
    by (auto simp: round_even_def Let_def)
next
  case False
  with assms have "\<lfloor>x\<rfloor> + 1 \<le> \<lfloor>y\<rfloor>"
    using floor_mono [of x y] by linarith
  with round_even_bounds(2) [of x] round_even_bounds(1) [of y] show ?thesis
    by linarith
qed

lemma powi2_less_D: "(2::real) powi a < 2 powi b \<Longrightarrow> a < b"
proof (rule ccontr)
  assume l: "(2::real) powi a < 2 powi b" and "\<not> a < b"
  then have "b \<le> a" by simp
  then have "(2::real) powi b \<le> 2 powi a" by (rule power_int_increasing) simp
  with l show False by simp
qed

lemma dexp_le: "x < 2 powi (b + 1) \<Longrightarrow> - 1022 \<le> b \<Longrightarrow> dexp x e \<le> b"
proof (induction x e rule: dexp.induct)
  case (1 x e)
  show ?case
  proof (cases "e \<le> - 1022 \<or> 2 powi e \<le> x")
    case True
    then have d: "dexp x e = e" by (simp add: dexp.simps [of x e])
    from True show ?thesis
    proof
      assume "e \<le> - 1022"
      with 1 d show ?thesis by simp
    next
      assume "2 powi e \<le> x"
      with 1 have "(2::real) powi e < 2 powi (b + 1)" by simp
      then have "e < b + 1" by (rule powi2_less_D)
      with d show ?thesis by simp
    qed
  next
    case False
    with 1 show ?thesis by (simp add: dexp.simps [of x e])
  qed
qed

lemma dexp_eq:
  "2 powi k \<le> x \<Longrightarrow> x < 2 powi (k + 1) \<Longrightarrow> - 1022 \<le> k \<Longrightarrow> k \<le> e \<Longrightarrow> dexp x e = k"
proof (induction x e rule: dexp.induct)
  case (1 x e)
  show ?case
  proof (cases "e \<le> - 1022 \<or> 2 powi e \<le> x")
    case True
    then have d: "dexp x e = e" by (simp add: dexp.simps [of x e])
    from True show ?thesis
    proof
      assume "e \<le> - 1022"
      with 1 d show ?thesis by simp
    next
      assume "2 powi e \<le> x"
      with 1 have "(2::real) powi e < 2 powi (k + 1)" by simp
      then have "e < k + 1" by (rule powi2_less_D)
      with 1 d show ?thesis by simp
    qed
  next
    case False
    with 1 have "k \<noteq> e" by auto
    with False 1 show ?thesis by (simp add: dexp.simps [of x e])
  qed
qed

lemma round_double_nonneg:
  "0 \<le> x \<Longrightarrow>
   round_double x =
     of_int (round_even (x / 2 powi (dexp x 1023 - 52))) * 2 powi (dexp x 1023 - 52)"
  by (cases "x = 0") (simp_all add: round_double_def Let_def round_even_def)

lemma round_double_grid:
  assumes x: "0 \<le> x" "x < 2 powi 17"
  shows "x \<le> of_int k * 2 powi (- 36) \<Longrightarrow> round_double x \<le> of_int k * 2 powi (- 36)"
    and "of_int k * 2 powi (- 36) \<le> x \<Longrightarrow> of_int k * 2 powi (- 36) \<le> round_double x"
proof -
  define q where "q = dexp x 1023 - 52"
  define u :: real where "u = 2 powi q"
  define n where "n = nat (- 36 - q)"
  have "dexp x 1023 \<le> 16"
    using x(2) by (intro dexp_le) simp_all
  then have q: "q \<le> - 36" by (simp add: q_def)
  have u: "0 < u" by (simp add: u_def)
  have "(2::real) powi (- 36) = 2 powi (int n + q)"
    using q by (simp add: n_def)
  also have "\<dots> = 2 ^ n * u"
    by (simp add: power_int_add u_def)
  finally have g: "of_int k * 2 powi (- 36) = of_int (k * 2 ^ n) * u"
    by simp
  have r: "round_double x = of_int (round_even (x / u)) * u"
    using x(1) by (simp add: round_double_nonneg q_def u_def)
  have up: "t = of_int j * u \<Longrightarrow> x \<le> t \<Longrightarrow> round_double x \<le> t" for t and j :: int
  proof -
    assume t: "t = of_int j * u" and "x \<le> t"
    then have "x / u \<le> of_int j"
      using u by (simp add: pos_divide_le_eq)
    then have "round_even (x / u) \<le> round_even (of_int j)"
      by (rule round_even_mono)
    then have "round_even (x / u) \<le> j"
      by (simp only: round_even_of_int)
    then have "(of_int (round_even (x / u)) :: real) \<le> of_int j"
      by (simp only: of_int_le_iff)
    then show "round_double x \<le> t"
      unfolding r t using u by (simp only: mult_le_cancel_right_pos)
  qed
  have lo: "t = of_int j * u \<Longrightarrow> t \<le> x \<Longrightarrow> t \<le> round_double x" for t and j :: int
  proof -
    assume t: "t = of_int j * u" and "t \<le> x"
    then have "of_int j \<le> x / u"
      using u by (simp add: pos_le_divide_eq)
    then have "round_even (of_int j) \<le> round_even (x / u)"
      by (rule round_even_mono)
    then have "j \<le> round_even (x / u)"
      by (simp only: round_even_of_int)
    then have "(of_int j :: real) \<le> of_int (round_even (x / u))"
      by (simp only: of_int_le_iff)
    then show "t \<le> round_double x"
      unfolding r t using u by (simp only: mult_le_cancel_right_pos)
  qed
  show "x \<le> of_int k * 2 powi (- 36) \<Longrightarrow> round_double x \<le> of_int k * 2 powi (- 36)"
    by (rule up [OF g])
  show "of_int k * 2 powi (- 36) \<le> x \<Longrightarrow> of_int k * 2 powi (- 36) \<le> round_double x"
    by (rule lo [OF g])
qed

lemma double_below_one:
  assumes d: "round_double r = r" and r: "0 \<le> r" "r < 1"
  shows "r \<le> 1 - 2 powi (- 53)"
proof (cases "r < 1 / 2")
  case True
  then show ?thesis by simp
next
  case False
  then have "dexp r 1023 = - 1"
    using r by (intro dexp_eq) simp_all
  then have "round_double r = of_int (round_even (r / 2 powi (- 53))) * 2 powi (- 53)"
    using r(1) by (simp add: round_double_nonneg)
  with d obtain m :: int where m: "r = of_int m * 2 powi (- 53)"
    by metis
  with r(2) have "(of_int m :: real) < 9007199254740992"
    by simp
  then have "m < 9007199254740992"
    by linarith
  then have "m \<le> 9007199254740991"
    by simp
  then have "(of_int m :: real) \<le> 9007199254740991"
    by linarith
  then show ?thesis
    by (simp add: m)
qed

lemma product_rounds_below:
  assumes p: "0 \<le> p" "p \<le> 90000 - 90000 * 2 powi (- 53)"
  shows "0 \<le> round_double p" and "round_double p \<le> 90000 - 2 powi (- 36)"
proof -
  have lt: "p < 2 powi 17"
    using p by simp
  show "0 \<le> round_double p"
    using round_double_grid(2) [OF p(1) lt, of 0] p(1) by simp
  have B: "(90000::real) - 2 powi (- 36) = of_int 6184752906239999 * 2 powi (- 36)"
    by simp
  show "round_double p \<le> 90000 - 2 powi (- 36)"
  proof (cases "p \<le> 90000 - 2 powi (- 36)")
    case True
    then show ?thesis
      unfolding B by (rule round_double_grid(1) [OF p(1) lt])
  next
    case False
    then have "dexp p 1023 = 16"
      using p by (intro dexp_eq) simp_all
    then have r: "round_double p = of_int (round_even (p / 2 powi (- 36))) * 2 powi (- 36)"
      using p(1) by (simp add: round_double_nonneg)
    define y where "y = p / 2 powi (- 36)"
    have y: "6184752906239999 < y" "y \<le> 6184752906240000 - 90000 / 131072"
      using False p(2) by (simp_all add: y_def)
    then have f: "\<lfloor>y\<rfloor> = 6184752906239999"
      by linarith
    have "y - of_int \<lfloor>y\<rfloor> < 1 / 2"
      using y(2) by (simp add: f)
    then have "round_even y = 6184752906239999"
      by (simp add: round_even_low f)
    then show ?thesis
      unfolding r y_def [symmetric] by simp
  qed
qed

lemma sum_rounds_within:
  assumes s: "0 \<le> t" "t \<le> 90000 - 2 powi (- 36)"
  shows "10000 \<le> round_double (10000 + t)" and "round_double (10000 + t) < 100000"
proof -
  have nn: "0 \<le> 10000 + t" and lt: "10000 + t < 2 powi 17"
    using s by simp_all
  have "of_int 687194767360000 * 2 powi (- 36) \<le> 10000 + t"
    using s(1) by simp
  then have "of_int 687194767360000 * 2 powi (- 36) \<le> round_double (10000 + t)"
    by (rule round_double_grid(2) [OF nn lt])
  then show "10000 \<le> round_double (10000 + t)"
    by simp
  have "10000 + t \<le> of_int 6871947673599999 * 2 powi (- 36)"
    using s(2) by simp
  then have "round_double (10000 + t) \<le> of_int 6871947673599999 * 2 powi (- 36)"
    by (rule round_double_grid(1) [OF nn lt])
  then show "round_double (10000 + t) < 100000"
    by simp
qed

lemma code_number_range:
  assumes "round_double rnd = rnd" and "0 \<le> rnd" and "rnd < 1"
  shows "10000 \<le> \<lfloor>round_double (10000 + round_double (rnd * 90000))\<rfloor>"
    and "\<lfloor>round_double (10000 + round_double (rnd * 90000))\<rfloor> \<le> 99999"
proof -
  from assms have "rnd \<le> 1 - 2 powi (- 53)"
    by (rule double_below_one)
  then have "rnd * 90000 \<le> (1 - 2 powi (- 53)) * 90000"
    by simp
  then have p: "0 \<le> rnd * 90000" "rnd * 90000 \<le> 90000 - 90000 * 2 powi (- 53)"
    using assms(2) by (simp_all add: algebra_simps)
  note t = product_rounds_below [OF p]
  note s = sum_rounds_within [OF t]
  from s(1) show "10000 \<le> \<lfloor>round_double (10000 + round_double (rnd * 90000))\<rfloor>"
    by linarith
  from s(2) show "\<lfloor>round_double (10000 + round_double (rnd * 90000))\<rfloor> \<le> 99999"
    by linarith
qed

lemma round_double_at:
  "2 powi k \<le> x \<Longrightarrow> x < 2 powi (k + 1) \<Longrightarrow> - 1022 \<le> k \<Longrightarrow> k \<le> 1023 \<Longrightarrow>
   round_double x = of_int (round_even (x / 2 powi (k - 52))) * 2 powi (k - 52)"
proof -
  assume a: "2 powi k \<le> x" "x < 2 powi (k + 1)" "- 1022 \<le> k" "k \<le> 1023"
  then have "dexp x 1023 = k" by (rule dexp_eq)
  moreover have "0 < (2::real) powi k" by simp
  with a(1) have "0 \<le> x" by linarith
  ultimately show ?thesis by (simp add: round_double_nonneg)
qed

lemma round_double_0: "round_double 0 = 0"
  by (simp add: round_double_def)

lemma round_double_10000: "round_double 10000 = 10000"
  by (subst round_double_at [of 13]) (simp_all add: round_even_def)



lemma is_double_0: "is_double 0"
  by (simp add: is_double_def round_double_0)

lemma is_double_half: "is_double (1 / 2)"
  unfolding is_double_def by (subst round_double_at [of "- 1"]) (simp_all add: round_even_def)

lemma generateRoomCode_0: "generateRoomCode 0 = ''10000''"
proof -
  have "round_double (10000 + round_double (0 * 90000)) = 10000"
    by (simp add: round_double_0 round_double_10000)
  then show ?thesis
    unfolding generateRoomCode_def by (simp add: toString_def digits.simps digit_char_def)
qed


text \<open>
  Where rounding shows: the double written \<^verbatim>\<open>0.3333333333333333\<close> is
  \<open>6004799503160661 / 2 ^ 54\<close>. Its exact product with 90000 lies below 30000 and rounds
  to 30000, so the code generated is 40000, not 39999.
\<close>

lemma is_double_third: "is_double (6004799503160661 / 18014398509481984)"
  unfolding is_double_def by (subst round_double_at [of "- 2"]) (simp_all add: round_even_def)

lemma round_double_third_product:
  "round_double (6004799503160661 / 18014398509481984 * 90000) = 30000"
  by (subst round_double_at [of 14]) (simp_all add: round_even_def)

lemma round_double_40000: "round_double 40000 = 40000"
  by (subst round_double_at [of 15]) (simp_all add: round_even_def)

lemma generateRoomCode_third:
  "generateRoomCode (6004799503160661 / 18014398509481984) = ''40000''"
proof -
  have "round_double (10000 + round_double (6004799503160661 / 18014398509481984 * 90000)) =
      40000"
    by (simp only: round_double_third_product) (simp add: round_double_40000)
  then show ?thesis
    unfolding generateRoomCode_def by (simp add: toString_def digits.simps digit_char_def)
qed

subsection \<open>Decimal strings\<close>

lemma digit_val_digit_char: "d < 10 \<Longrightarrow> digit_val (digit_char d) = d"
proof -
  assume "d < 10"
  then have "d \<in> {0, 1, 2, 3, 4, 5, 6, 7, 8, 9}" by auto
  then show ?thesis
    by (auto simp: digit_val_def digit_char_def)
qed

lemma is_digit_digit_char: "d < 10 \<Longrightarrow> is_digit (digit_char d)"
  unfolding is_digit_def digit_char_def by (rule nth_mem) simp

lemma parseDec_snoc: "parseDec (s @ [c]) = 10 * parseDec s + digit_val c"
  by (simp add: parseDec_def)

lemma parseDec_digits: "parseDec (digits n) = n"
proof (induction n rule: digits.induct)
  case (1 n)
  show ?case
  proof (cases "n < 10")
    case True
    then show ?thesis
      by (simp add: digits.simps [of n] parseDec_def digit_val_digit_char)
  next
    case False
    with 1 have "parseDec (digits (n div 10)) = n div 10" by simp
    with False show ?thesis
      by (simp add: digits.simps [of n] parseDec_snoc digit_val_digit_char)
  qed
qed

lemma digits_all_digit: "list_all is_digit (digits n)"
proof (induction n rule: digits.induct)
  case (1 n)
  then show ?case
    by (cases "n < 10") (simp_all add: digits.simps [of n] is_digit_digit_char)
qed

lemma digits_nonempty: "digits n \<noteq> []"
  by (subst digits.simps) simp

lemma length_digits: "10 ^ k \<le> n \<Longrightarrow> n < 10 ^ Suc k \<Longrightarrow> length (digits n) = Suc k"
proof (induction k arbitrary: n)
  case 0
  then show ?case by (simp add: digits.simps [of n])
next
  case (Suc k)
  from Suc.prems have ge: "10 \<le> n"
    by (metis One_nat_def le_trans one_le_numeral power_Suc0_right power_increasing
        zero_less_Suc Suc_leI)
  from Suc.prems have "10 ^ k \<le> n div 10" "n div 10 < 10 ^ Suc k"
    by (simp_all add: less_eq_div_iff_mult_less_eq div_less_iff_less_mult mult.commute)
  then have "length (digits (n div 10)) = Suc k" by (rule Suc.IH)
  with ge show ?case by (simp add: digits.simps [of n])
qed

lemma toString_nonempty: "toString i \<noteq> []"
  by (simp add: toString_def digits_nonempty)

subsection \<open>The registry invariant holds in every reachable state\<close>

lemma reg_all_get: "reg_all P m \<Longrightarrow> jm_get m k = Some v \<Longrightarrow> P k v"
  by (auto simp: reg_all_def list_all_iff dest!: jm_get_in_set)

lemma set_update_subset: "set (AList.update k v al) \<subseteq> insert (k, v) (set al)"
  by (induction al) auto

lemma reg_all_set: "reg_all P m \<Longrightarrow> P k v \<Longrightarrow> reg_all P (jm_set m k v)"
  using set_update_subset [of k v m] by (auto simp: reg_all_def list_all_iff jm_set_def)

lemma reg_all_delete: "reg_all P m \<Longrightarrow> reg_all P (jm_delete m k)"
  by (auto simp: reg_all_def list_all_iff jm_delete_def AList.delete_eq)

lemma length_update_le: "length (AList.update k v al) \<le> Suc (length al)"
  by (induction al) auto


lemma length_update_present: "k \<in> fst ` set al \<Longrightarrow> length (AList.update k v al) = length al"
  by (induction al) auto

lemma slice_last_length: "length (slice_last n xs) = min n (length xs)"
  by (simp add: slice_last_def)

lemma room_ok_createRoom:
  "reg_all room_ok rooms \<Longrightarrow> reg_all room_ok (fst (snd (createRoom socket nick rnd now rooms)))"
  by (auto simp: createRoom_def Let_def generateRoomCode_def toString_nonempty room_ok_def
      jm_keys_def jm_size_def intro!: reg_all_set)

lemma room_ok_joinRoom:
  assumes "reg_all room_ok rooms"
  shows "reg_all room_ok (fst (snd (joinRoom socket rc nick rooms)))"
proof (cases "jm_get rooms rc")
  case None
  with assms show ?thesis by (simp add: joinRoom_def)
next
  case (Some room)
  with assms have ok: "room_ok rc room" by (rule reg_all_get)
  show ?thesis
  proof (cases "jm_size (members room) \<ge> 10")
    case True
    with Some assms show ?thesis by (simp add: joinRoom_def)
  next
    case False
    have "room_ok rc (room\<lparr>members :=
        jm_set (members room) (sid socket) \<lparr>nickname = nick, isHost = False\<rparr>\<rparr>)"
      using ok False
        length_update_le [of "sid socket" "\<lparr>nickname = nick, isHost = False\<rparr>" "members room"]
      by (simp add: room_ok_def jm_keys_def jm_size_def jm_set_def distinct_update)
    with assms Some False show ?thesis
      by (simp add: joinRoom_def Let_def reg_all_set)
  qed
qed

lemma room_ok_videoAction:
  "reg_all room_ok rooms \<Longrightarrow> reg_all room_ok (fst (videoAction socket action now rooms))"
  by (auto simp: videoAction_def resolveRoom_def Let_def room_ok_def split: option.splits
      dest: reg_all_get intro!: reg_all_set)

lemma room_ok_changeEpisode:
  "reg_all room_ok rooms \<Longrightarrow> reg_all room_ok (fst (changeEpisode socket e a rooms))"
  by (auto simp: changeEpisode_def resolveRoom_def Let_def room_ok_def split: option.splits
      dest: reg_all_get intro!: reg_all_set)

lemma room_ok_chatMessage:
  "reg_all room_ok rooms \<Longrightarrow> reg_all room_ok (fst (chatMessage socket message uuid now rooms))"
  by (auto simp: chatMessage_def resolveRoom_def Let_def room_ok_def slice_last_length
      split: option.splits dest: reg_all_get intro!: reg_all_set)

lemma room_ok_getRoomInfo:
  "reg_all room_ok rooms \<Longrightarrow> reg_all room_ok (fst (getRoomInfo socket rc rooms))"
  by (simp add: getRoomInfo_def split: option.splits)

lemma room_ok_disconnect:
  assumes "reg_all room_ok rooms"
  shows "reg_all room_ok (fst (disconnect socket rooms))"
proof (cases "resolveRoom socket rooms")
  case None
  with assms show ?thesis
    by (auto simp: disconnect_def resolveRoom_def split: option.splits)
next
  case (Some p)
  obtain rc room where p: "p = (rc, room)" by (cases p)
  with Some have b: "roomCode socket = Some rc" and g: "jm_get rooms rc = Some room"
    by (auto simp: resolveRoom_def split: option.splits)
  from assms g have ok: "room_ok rc room" by (rule reg_all_get)
  define ms where "ms = jm_delete (members room) (sid socket)"
  have d: "distinct (map fst ms)" and l: "length ms \<le> 10"
    using ok length_delete_le [of "sid socket" "members room"]
    by (simp_all add: ms_def room_ok_def jm_delete_def jm_keys_def jm_size_def distinct_delete)
  have a: "ms \<noteq> [] \<Longrightarrow> room_ok rc (room\<lparr>members := ms\<rparr>)"
    using ok d l by (simp add: room_ok_def jm_keys_def jm_size_def)
  have h: "ms \<noteq> [] \<Longrightarrow> k \<in> fst ` set ms \<Longrightarrow>
      room_ok rc (room\<lparr>host := k, members := jm_set ms k v\<rparr>)" for k v
    using ok d l
    by (simp add: room_ok_def jm_keys_def jm_size_def jm_set_def distinct_update
        length_update_present)
  show ?thesis
    using assms b g a h
    by (auto simp: disconnect_def Let_def ms_def [symmetric] jm_size_def jm_keys_def
        split: option.splits list.splits intro!: reg_all_set reg_all_delete
        dest!: jm_get_in_set)
qed

lemma room_ok_step: "reg_all room_ok (st_rooms s) \<Longrightarrow> reg_all room_ok (st_rooms (fst (step s i)))"
proof -
  assume ok: "reg_all room_ok (st_rooms s)"
  have sel: "x = (a, b, c) \<Longrightarrow> fst (snd x) = b" "y = (d, e) \<Longrightarrow> fst y = d"
    for x :: "socket \<times> room jsmap \<times> emit list" and y :: "room jsmap \<times> emit list" and a b c d e
    by simp_all
  show ?thesis
  proof (cases i)
    case (Connect c)
    with ok show ?thesis by (simp split: option.splits)
  next
    case (CreateRoomIn c nick rnd now)
    with ok show ?thesis
      using room_ok_createRoom [OF ok]
      by (auto split: option.splits prod.splits dest!: sel)
  next
    case (JoinRoomIn c rc nick)
    with ok show ?thesis
      using room_ok_joinRoom [OF ok]
      by (auto split: option.splits prod.splits dest!: sel)
  next
    case (VideoActionIn c action now)
    with ok show ?thesis
      using room_ok_videoAction [OF ok]
      by (auto split: option.splits prod.splits dest!: sel)
  next
    case (ChangeEpisodeIn c e a)
    with ok show ?thesis
      using room_ok_changeEpisode [OF ok]
      by (auto split: option.splits prod.splits dest!: sel)
  next
    case (ChatMessageIn c message uuid now)
    with ok show ?thesis
      using room_ok_chatMessage [OF ok]
      by (auto split: option.splits prod.splits dest!: sel)
  next
    case (GetRoomInfoIn c rc)
    with ok show ?thesis
      using room_ok_getRoomInfo [OF ok]
      by (auto split: option.splits prod.splits dest!: sel)
  next
    case (DisconnectIn c)
    with ok show ?thesis
      using room_ok_disconnect [OF ok]
      by (auto split: option.splits prod.splits dest!: sel)
  qed
qed

lemma room_ok_run: "reg_all room_ok (st_rooms s) \<Longrightarrow> reg_all room_ok (st_rooms (run s ins))"
  by (induction ins arbitrary: s) (simp_all add: room_ok_step)

lemma room_ok_reachable: "reg_all room_ok (st_rooms (run init ins))"
  by (rule room_ok_run) (simp add: init_def reg_all_def)

lemma ex_run_rooms: "st_rooms (run init ex_inputs) = [(''10000'', ex_room3)]"
  by (simp add: ex_inputs_def ex_room3_def init_def handler_defs jm_defs generateRoomCode_0 Let_def)

lemma ex_run_alice:
  "st_sockets (run init ex_inputs) ''A'' = Some \<lparr>sid = ''A'', joined = {''10000''}, roomCode = Some ''10000''\<rparr>"
  by (simp add: ex_inputs_def init_def handler_defs jm_defs generateRoomCode_0 Let_def)

section \<open>Host-gated mutation\<close>

text \<open>
  C7. A \<^verbatim>\<open>videoAction\<close> whose origin resolves to no room, or to a room it does not host, is
  dropped without a trace: the handler emits nothing (no error to the caller, no
  broadcast) and returns the registry it was given, videoState included.
\<close>

theorem videoAction_non_host_dropped:
  "(case resolveRoom socket rooms of None \<Rightarrow> True | Some (rc, room) \<Rightarrow> host room \<noteq> sid socket)
   \<Longrightarrow> videoAction socket action now rooms = (rooms, [])"
  by (auto simp: videoAction_def split: option.splits)

theorem videoAction_non_host_dropped_witness:
  "(case resolveRoom ex_bob ex_rooms of None \<Rightarrow> True | Some (rc, room) \<Rightarrow> host room \<noteq> sid ex_bob)
   \<and> (case resolveRoom ex_carol ex_rooms of None \<Rightarrow> True
        | Some (rc, room) \<Rightarrow> host room \<noteq> sid ex_carol)
   \<and> videoAction ex_bob ex_action 5 ex_rooms = (ex_rooms, [])
   \<and> videoAction ex_carol ex_action 5 ex_rooms = (ex_rooms, [])"
proof -
  have b: "case resolveRoom ex_bob ex_rooms of None \<Rightarrow> True
           | Some (rc, room) \<Rightarrow> host room \<noteq> sid ex_bob"
    by (simp add: resolveRoom_def jm_get_def ex_defs)
  have c: "case resolveRoom ex_carol ex_rooms of None \<Rightarrow> True
           | Some (rc, room) \<Rightarrow> host room \<noteq> sid ex_carol"
    by (simp add: resolveRoom_def ex_defs)
  show ?thesis
    using b c videoAction_non_host_dropped [OF b, of ex_action 5]
      videoAction_non_host_dropped [OF c, of ex_action 5]
    by simp
qed

text \<open>
  C8. A \<^verbatim>\<open>videoAction\<close> from the host of its resolved room stores, as the room's videoState,
  the action's own properties with \<^verbatim>\<open>lastUpdate\<close> set to the current time: nothing of the
  previous videoState survives. Every other field of the room, every other room and the
  order of the registry stay as they were, and the one event emitted is the action, sent
  with \<^verbatim>\<open>socket.to(roomCode)\<close>, that is to the room's subscribers except the origin.
\<close>

theorem videoAction_host_replaces_state:
  assumes "resolveRoom socket rooms = Some (rc, room)"
    and "host room = sid socket"
    and "videoAction socket action now rooms = (rooms', out)"
  shows "jm_get rooms' rc =
           Some (room\<lparr>videoState := action(''lastUpdate'' \<mapsto> JNum (of_int now))\<rparr>)
       \<and> (\<forall>c. c \<noteq> rc \<longrightarrow> jm_get rooms' c = jm_get rooms c)
       \<and> jm_keys rooms' = jm_keys rooms
       \<and> out = [(ToRoomExcept rc (sid socket), VideoAction action)]"
proof -
  from assms(1) have g: "jm_get rooms rc = Some room"
    by (simp add: resolveRoom_Some)
  from assms have r: "rooms' =
      jm_set rooms rc (room\<lparr>videoState := action(''lastUpdate'' \<mapsto> JNum (of_int now))\<rparr>)"
    and o: "out = [(ToRoomExcept rc (sid socket), VideoAction action)]"
    by (simp_all add: videoAction_def)
  show ?thesis
    using g o by (simp add: r jm_get_set jm_keys_set_present)
qed

theorem videoAction_host_replaces_state_witness:
  "resolveRoom ex_alice ex_rooms = Some (''10000'', ex_room)
   \<and> host ex_room = sid ex_alice
   \<and> jm_get (fst (videoAction ex_alice ex_action 5 ex_rooms)) ''10000'' =
       Some (ex_room\<lparr>videoState := ex_action(''lastUpdate'' \<mapsto> JNum 5)\<rparr>)
   \<and> jm_keys (fst (videoAction ex_alice ex_action 5 ex_rooms)) = [''10000'']
   \<and> snd (videoAction ex_alice ex_action 5 ex_rooms) =
       [(ToRoomExcept ''10000'' ''A'', VideoAction ex_action)]"
proof -
  have r: "resolveRoom ex_alice ex_rooms = Some (''10000'', ex_room)"
    by (simp add: resolveRoom_def jm_get_def ex_alice_def ex_rooms_def)
  have h: "host ex_room = sid ex_alice"
    by (simp add: ex_room_def ex_alice_def)
  have k: "jm_keys ex_rooms = [''10000'']" and i: "sid ex_alice = ''A''"
    by (simp_all add: jm_keys_def ex_rooms_def ex_alice_def)
  show ?thesis
    using r h k i
      videoAction_host_replaces_state [OF r h, of ex_action 5
        "fst (videoAction ex_alice ex_action 5 ex_rooms)"
        "snd (videoAction ex_alice ex_action 5 ex_rooms)"]
    by simp
qed

text \<open>
  C9. A \<^verbatim>\<open>changeEpisode\<close> from the host of its resolved room sets the room's
  \<^verbatim>\<open>currentEpisode\<close> and \<^verbatim>\<open>animeId\<close> to the values given, changes nothing else, and emits
  one \<^verbatim>\<open>changeEpisode\<close> event with \<^verbatim>\<open>io.to(roomCode)\<close>, that is to the whole room, origin
  included. From any other origin it is dropped: no change and no event.
\<close>

theorem changeEpisode_host_gate:
  "(resolveRoom socket rooms = Some (rc, room) \<and> host room = sid socket \<longrightarrow>
      jm_get (fst (changeEpisode socket episodeId anime rooms)) rc =
        Some (room\<lparr>currentEpisode := episodeId, animeId := anime\<rparr>)
      \<and> (\<forall>c. c \<noteq> rc \<longrightarrow>
            jm_get (fst (changeEpisode socket episodeId anime rooms)) c = jm_get rooms c)
      \<and> jm_keys (fst (changeEpisode socket episodeId anime rooms)) = jm_keys rooms
      \<and> snd (changeEpisode socket episodeId anime rooms) =
          [(ToRoom rc, ChangeEpisode episodeId anime)])
   \<and> ((case resolveRoom socket rooms of None \<Rightarrow> True
        | Some (rc, room) \<Rightarrow> host room \<noteq> sid socket) \<longrightarrow>
      changeEpisode socket episodeId anime rooms = (rooms, []))"
proof (intro conjI impI)
  assume a: "resolveRoom socket rooms = Some (rc, room) \<and> host room = sid socket"
  then have g: "jm_get rooms rc = Some room"
    by (simp add: resolveRoom_Some)
  from a have e: "changeEpisode socket episodeId anime rooms =
      (jm_set rooms rc (room\<lparr>currentEpisode := episodeId, animeId := anime\<rparr>),
       [(ToRoom rc, ChangeEpisode episodeId anime)])"
    by (simp add: changeEpisode_def)
  show "jm_get (fst (changeEpisode socket episodeId anime rooms)) rc =
      Some (room\<lparr>currentEpisode := episodeId, animeId := anime\<rparr>)"
    by (simp add: e jm_get_set)
  show "\<forall>c. c \<noteq> rc \<longrightarrow>
      jm_get (fst (changeEpisode socket episodeId anime rooms)) c = jm_get rooms c"
    by (simp add: e jm_get_set)
  show "jm_keys (fst (changeEpisode socket episodeId anime rooms)) = jm_keys rooms"
    using g by (simp add: e jm_keys_set_present)
  show "snd (changeEpisode socket episodeId anime rooms) =
      [(ToRoom rc, ChangeEpisode episodeId anime)]"
    by (simp add: e)
next
  assume "case resolveRoom socket rooms of None \<Rightarrow> True
          | Some (rc, room) \<Rightarrow> host room \<noteq> sid socket"
  then show "changeEpisode socket episodeId anime rooms = (rooms, [])"
    by (auto simp: changeEpisode_def split: option.splits)
qed

theorem changeEpisode_host_gate_witness:
  "(resolveRoom ex_alice ex_rooms = Some (''10000'', ex_room) \<and> host ex_room = sid ex_alice)
   \<and> jm_get (fst (changeEpisode ex_alice (JStr ''ep-2'') (JStr ''anime-7'') ex_rooms)) ''10000'' =
       Some (ex_room\<lparr>currentEpisode := JStr ''ep-2'', animeId := JStr ''anime-7''\<rparr>)
   \<and> snd (changeEpisode ex_alice (JStr ''ep-2'') (JStr ''anime-7'') ex_rooms) =
       [(ToRoom ''10000'', ChangeEpisode (JStr ''ep-2'') (JStr ''anime-7''))]
   \<and> (case resolveRoom ex_bob ex_rooms of None \<Rightarrow> True
        | Some (rc, room) \<Rightarrow> host room \<noteq> sid ex_bob)
   \<and> changeEpisode ex_bob (JStr ''ep-2'') (JStr ''anime-7'') ex_rooms = (ex_rooms, [])"
proof -
  have r: "resolveRoom ex_alice ex_rooms = Some (''10000'', ex_room) \<and> host ex_room = sid ex_alice"
    by (simp add: resolveRoom_def jm_get_def ex_defs)
  have b: "case resolveRoom ex_bob ex_rooms of None \<Rightarrow> True
           | Some (rc, room) \<Rightarrow> host room \<noteq> sid ex_bob"
    by (simp add: resolveRoom_def jm_get_def ex_defs)
  show ?thesis
    using r b
      changeEpisode_host_gate [of ex_alice ex_rooms "''10000''" ex_room "JStr ''ep-2''"
        "JStr ''anime-7''"]
      changeEpisode_host_gate [of ex_bob ex_rooms "''10000''" ex_room "JStr ''ep-2''"
        "JStr ''anime-7''"]
    by simp
qed

section \<open>Room info query\<close>

text \<open>
  C10. \<^verbatim>\<open>getRoomInfo\<close> does not look at the requester: whatever the socket, bound to this
  room, to another one or to none, a room code that is live in the registry is answered
  with a \<^verbatim>\<open>roomInfo\<close> event to the requester alone, carrying the member list, the episode
  and anime ids and the videoState; the event has no chat field. The registry is not
  changed.
\<close>

theorem getRoomInfo_not_membership_gated:
  "jm_get rooms rc = Some room \<Longrightarrow>
   getRoomInfo socket rc rooms =
     (rooms, [(ToSocket (sid socket),
               RoomInfo (jm_values (members room)) (currentEpisode room) (animeId room)
                 (videoState room))])"
  by (simp add: getRoomInfo_def)

theorem getRoomInfo_not_membership_gated_witness:
  "jm_get ex_rooms ''10000'' = Some ex_room
   \<and> roomCode ex_carol = None
   \<and> \<not> jm_has (members ex_room) (sid ex_carol)
   \<and> getRoomInfo ex_carol ''10000'' ex_rooms =
       (ex_rooms, [(ToSocket ''C'',
          RoomInfo [\<lparr>nickname = ''Alice'', isHost = True\<rparr>, \<lparr>nickname = ''Bob'', isHost = False\<rparr>]
            JNull JNull (videoState ex_room))])"
proof -
  have g: "jm_get ex_rooms ''10000'' = Some ex_room"
    by (simp add: jm_get_def ex_rooms_def)
  have c: "roomCode ex_carol = None" "\<not> jm_has (members ex_room) (sid ex_carol)"
    "sid ex_carol = ''C''"
    by (simp_all add: jm_has_def jm_get_def ex_carol_def ex_room_def)
  have v: "jm_values (members ex_room) =
      [\<lparr>nickname = ''Alice'', isHost = True\<rparr>, \<lparr>nickname = ''Bob'', isHost = False\<rparr>]"
    "currentEpisode ex_room = JNull" "animeId ex_room = JNull"
    by (simp_all add: jm_values_def ex_room_def)
  show ?thesis
    using g c v getRoomInfo_not_membership_gated [OF g, of ex_carol]
    by simp
qed

section \<open>Disconnect and host failover\<close>

text \<open>
  C4. Take any reachable state, a socket whose \<^verbatim>\<open>roomCode\<close> names a room of the registry,
  and run the disconnect handler. The socket's entry is gone from the members Map and
  the other entries are as before. If that leaves the Map empty, the room is deleted
  (looking its code up finds nothing) and nothing is emitted. Otherwise, if the socket
  was \<^verbatim>\<open>room.host\<close>, the first remaining entry in insertion order gets \<^verbatim>\<open>isHost = true\<close>
  and becomes \<^verbatim>\<open>room.host\<close>, and the handler emits \<^verbatim>\<open>newHost\<close> and then \<^verbatim>\<open>userLeft\<close> to the
  room; if it was not the host, the handler emits \<^verbatim>\<open>userLeft\<close> alone. No other room changes.
\<close>

theorem disconnect_cleanup_and_failover:
  assumes "roomCode socket = Some rc"
    and "jm_get (st_rooms (run init ins)) rc = Some room"
    and "disconnect socket (st_rooms (run init ins)) = (rooms', out)"
  shows "\<not> jm_has (jm_delete (members room) (sid socket)) (sid socket)
       \<and> (\<forall>k. k \<noteq> sid socket \<longrightarrow>
             jm_get (jm_delete (members room) (sid socket)) k = jm_get (members room) k)
       \<and> (\<forall>c. c \<noteq> rc \<longrightarrow> jm_get rooms' c = jm_get (st_rooms (run init ins)) c)
       \<and> (case jm_delete (members room) (sid socket) of
             [] \<Rightarrow> jm_get rooms' rc = None \<and> out = []
           | (first, m) # rest \<Rightarrow>
               if host room = sid socket
               then jm_get rooms' rc =
                      Some (room\<lparr>host := first, members := (first, m\<lparr>isHost := True\<rparr>) # rest\<rparr>)
                  \<and> out =
                      [(ToRoom rc, NewHost first (nickname m) (jm_values ((first, m\<lparr>isHost := True\<rparr>) # rest))),
                       (ToRoom rc, UserLeft (map_option nickname (jm_get (members room) (sid socket)))
                          (jm_values ((first, m\<lparr>isHost := True\<rparr>) # rest)))]
               else jm_get rooms' rc = Some (room\<lparr>members := (first, m) # rest\<rparr>)
                  \<and> out =
                      [(ToRoom rc, UserLeft (map_option nickname (jm_get (members room) (sid socket)))
                          (jm_values ((first, m) # rest)))])"
proof -
  have "room_ok rc room"
    using room_ok_reachable assms(2) by (rule reg_all_get)
  then have ne: "rc \<noteq> []" by (simp add: room_ok_def)
  define ms where "ms = jm_delete (members room) (sid socket)"
  have 1: "\<not> jm_has ms (sid socket)"
    by (simp add: ms_def jm_has_def jm_get_delete)
  have 2: "\<forall>k. k \<noteq> sid socket \<longrightarrow> jm_get ms k = jm_get (members room) k"
    by (simp add: ms_def jm_get_delete)
  have 3: "\<forall>c. c \<noteq> rc \<longrightarrow> jm_get rooms' c = jm_get (st_rooms (run init ins)) c"
    using assms ne
    by (auto simp: disconnect_def Let_def jm_get_set jm_get_delete
        split: if_splits list.splits option.splits)
  have 4: "case ms of
             [] \<Rightarrow> jm_get rooms' rc = None \<and> out = []
           | (first, m) # rest \<Rightarrow>
               if host room = sid socket
               then jm_get rooms' rc =
                      Some (room\<lparr>host := first, members := (first, m\<lparr>isHost := True\<rparr>) # rest\<rparr>)
                  \<and> out =
                      [(ToRoom rc, NewHost first (nickname m) (jm_values ((first, m\<lparr>isHost := True\<rparr>) # rest))),
                       (ToRoom rc, UserLeft (map_option nickname (jm_get (members room) (sid socket)))
                          (jm_values ((first, m\<lparr>isHost := True\<rparr>) # rest)))]
               else jm_get rooms' rc = Some (room\<lparr>members := (first, m) # rest\<rparr>)
                  \<and> out =
                      [(ToRoom rc, UserLeft (map_option nickname (jm_get (members room) (sid socket)))
                          (jm_values ((first, m) # rest)))]"
  proof (cases ms)
    case Nil
    with assms ne show ?thesis
      by (auto simp: disconnect_def Let_def ms_def [symmetric] jm_size_def jm_get_delete)
  next
    case (Cons p rest)
    obtain first m where p: "p = (first, m)" by (cases p)
    have g: "jm_get ms first = Some m"
      by (simp add: Cons p jm_get_def)
    have u: "jm_set ms first v = (first, v) # rest" for v
      by (simp add: Cons p jm_set_def)
    show ?thesis
      using assms ne g u
      by (auto simp: disconnect_def Let_def ms_def [symmetric] jm_size_def jm_keys_def
          jm_get_set Cons p)
  qed
  from 1 2 3 4 show ?thesis
    unfolding ms_def by blast
qed

theorem disconnect_cleanup_and_failover_witness:
  "roomCode ex_alice = Some ''10000''
   \<and> st_sockets (run init ex_inputs) ''A'' = Some ex_alice
   \<and> jm_get (st_rooms (run init ex_inputs)) ''10000'' = Some ex_room3
   \<and> host ex_room3 = sid ex_alice
   \<and> jm_get (fst (disconnect ex_alice (st_rooms (run init ex_inputs)))) ''10000'' =
       Some (ex_room3\<lparr>host := ''B'',
               members := [(''B'', \<lparr>nickname = ''Bob'', isHost = True\<rparr>),
                           (''C'', \<lparr>nickname = ''Carol'', isHost = False\<rparr>)]\<rparr>)
   \<and> snd (disconnect ex_alice (st_rooms (run init ex_inputs))) =
       [(ToRoom ''10000'', NewHost ''B'' ''Bob''
           [\<lparr>nickname = ''Bob'', isHost = True\<rparr>, \<lparr>nickname = ''Carol'', isHost = False\<rparr>]),
        (ToRoom ''10000'', UserLeft (Some ''Alice'')
           [\<lparr>nickname = ''Bob'', isHost = True\<rparr>, \<lparr>nickname = ''Carol'', isHost = False\<rparr>])]"
proof -
  have b: "roomCode ex_alice = Some ''10000''"
    by (simp add: ex_alice_def)
  have s: "st_sockets (run init ex_inputs) ''A'' = Some ex_alice"
    by (simp add: ex_run_alice ex_alice_def)
  have g: "jm_get (st_rooms (run init ex_inputs)) ''10000'' = Some ex_room3"
    by (simp add: ex_run_rooms jm_get_def)
  have h: "host ex_room3 = sid ex_alice"
    by (simp add: ex_room3_def ex_alice_def)
  have d: "jm_delete (members ex_room3) (sid ex_alice) =
      [(''B'', \<lparr>nickname = ''Bob'', isHost = False\<rparr>), (''C'', \<lparr>nickname = ''Carol'', isHost = False\<rparr>)]"
    and m: "jm_get (members ex_room3) (sid ex_alice) = Some \<lparr>nickname = ''Alice'', isHost = True\<rparr>"
    by (simp_all add: ex_room3_def ex_alice_def jm_delete_def jm_get_def)
  show ?thesis
    using b s g h
      disconnect_cleanup_and_failover [OF b g, of
        "fst (disconnect ex_alice (st_rooms (run init ex_inputs)))"
        "snd (disconnect ex_alice (st_rooms (run init ex_inputs)))"]
    by (simp add: d m jm_values_def)
qed

section \<open>Chat history\<close>

text \<open>
  C5. In every reachable state every room's chat array has at most 100 messages. A
  \<^verbatim>\<open>chatMessage\<close> from a member stores the last 100 of the old array followed by the new
  message, so the oldest are the ones dropped. The \<^verbatim>\<open>roomJoined\<close> reply of a successful
  join carries the last 50 messages of the room's chat: at most 50, and a suffix of the
  retained history.
\<close>

theorem chat_history_bounds:
  "list_all (\<lambda>(k, r). length (chat r) \<le> 100) (st_rooms (run init ins))
   \<and> (resolveRoom socket rooms = Some (rc, room) \<and> jm_get (members room) (sid socket) = Some m \<longrightarrow>
        (let msg = \<lparr>chat_id = uuid, chat_nickname = nickname m, chat_message = message,
                    chat_timestamp = now, chat_isHost = isHost m\<rparr>;
             kept = slice_last 100 (chat room @ [msg])
         in jm_get (fst (chatMessage socket message uuid now rooms)) rc = Some (room\<lparr>chat := kept\<rparr>)
            \<and> length kept = min 100 (Suc (length (chat room)))
            \<and> suffix kept (chat room @ [msg])))
   \<and> (jm_get rooms rc = Some room \<and> jm_size (members room) < 10 \<longrightarrow>
        (\<exists>users. snd (snd (joinRoom socket rc nick rooms)) =
           [(ToRoom rc, UserJoined nick users),
            (ToSocket (sid socket),
             RoomJoined rc False (currentEpisode room) (animeId room) (videoState room) users
               (slice_last 50 (chat room)))])
        \<and> length (slice_last 50 (chat room)) = min 50 (length (chat room))
        \<and> suffix (slice_last 50 (chat room)) (chat room))"
proof (intro conjI impI)
  have "reg_all room_ok (st_rooms (run init ins))"
    by (rule room_ok_reachable)
  then show "list_all (\<lambda>(k, r). length (chat r) \<le> 100) (st_rooms (run init ins))"
    by (auto simp: reg_all_def room_ok_def list_all_iff)
next
  assume a: "resolveRoom socket rooms = Some (rc, room) \<and> jm_get (members room) (sid socket) = Some m"
  define msg where "msg = \<lparr>chat_id = uuid, chat_nickname = nickname m, chat_message = message,
                    chat_timestamp = now, chat_isHost = isHost m\<rparr>"
  have k: "(if 100 < length xs then slice_last 100 xs else xs) = slice_last 100 xs"
    for xs :: "chatMessage list"
    by (simp add: slice_last_def)
  have e: "chatMessage socket message uuid now rooms =
      (jm_set rooms rc (room\<lparr>chat := slice_last 100 (chat room @ [msg])\<rparr>),
       [(ToRoom rc, ChatMessage msg)])"
    using a by (simp add: chatMessage_def Let_def msg_def k del: length_append)
  have 1: "jm_get (fst (chatMessage socket message uuid now rooms)) rc =
      Some (room\<lparr>chat := slice_last 100 (chat room @ [msg])\<rparr>)"
    by (simp add: e jm_get_set)
  have 2: "length (slice_last 100 (chat room @ [msg])) = min 100 (Suc (length (chat room)))"
    by (simp add: slice_last_length)
  have 3: "suffix (slice_last 100 (chat room @ [msg])) (chat room @ [msg])"
    unfolding slice_last_def by (rule suffix_drop)
  from 1 2 3 show "let msg = \<lparr>chat_id = uuid, chat_nickname = nickname m, chat_message = message,
                    chat_timestamp = now, chat_isHost = isHost m\<rparr>;
             kept = slice_last 100 (chat room @ [msg])
         in jm_get (fst (chatMessage socket message uuid now rooms)) rc = Some (room\<lparr>chat := kept\<rparr>)
            \<and> length kept = min 100 (Suc (length (chat room)))
            \<and> suffix kept (chat room @ [msg])"
    unfolding Let_def msg_def by blast
next
  assume a: "jm_get rooms rc = Some room \<and> jm_size (members room) < 10"
  then show "\<exists>users. snd (snd (joinRoom socket rc nick rooms)) =
           [(ToRoom rc, UserJoined nick users),
            (ToSocket (sid socket),
             RoomJoined rc False (currentEpisode room) (animeId room) (videoState room) users
               (slice_last 50 (chat room)))]"
    by (simp add: joinRoom_def Let_def)
  show "length (slice_last 50 (chat room)) = min 50 (length (chat room))"
    by (rule slice_last_length)
  show "suffix (slice_last 50 (chat room)) (chat room)"
    by (simp add: slice_last_def suffix_drop)
qed

theorem chat_history_bounds_witness:
  "list_all (\<lambda>(k, r). length (chat r) \<le> 100) (st_rooms (run init ex_inputs))
   \<and> (resolveRoom ex_bob [(''10000'', ex_busy_room)] = Some (''10000'', ex_busy_room)
      \<and> jm_get (members ex_busy_room) (sid ex_bob) = Some \<lparr>nickname = ''Bob'', isHost = False\<rparr>)
   \<and> length (chat ex_busy_room) = 100
   \<and> map_option (\<lambda>r. length (chat r))
        (jm_get (fst (chatMessage ex_bob ''hi'' ''u-101'' 9 [(''10000'', ex_busy_room)])) ''10000'')
      = Some 100
   \<and> (jm_get [(''10000'', ex_busy_room)] ''10000'' = Some ex_busy_room
      \<and> jm_size (members ex_busy_room) < 10)
   \<and> length (slice_last 50 (chat ex_busy_room)) = 50
   \<and> suffix (slice_last 50 (chat ex_busy_room)) (chat ex_busy_room)"
proof -
  have r: "resolveRoom ex_bob [(''10000'', ex_busy_room)] = Some (''10000'', ex_busy_room)
      \<and> jm_get (members ex_busy_room) (sid ex_bob) = Some \<lparr>nickname = ''Bob'', isHost = False\<rparr>"
    by (simp add: resolveRoom_def jm_get_def ex_bob_def ex_busy_room_def ex_room_def)
  have l: "length (chat ex_busy_room) = 100"
    by (simp add: ex_busy_room_def)
  have g: "jm_get [(''10000'', ex_busy_room)] ''10000'' = Some ex_busy_room
      \<and> jm_size (members ex_busy_room) < 10"
    by (simp add: jm_get_def jm_size_def ex_busy_room_def ex_room_def)
  show ?thesis
    using r l g
      chat_history_bounds [of ex_inputs ex_bob "[(''10000'', ex_busy_room)]" "''10000''"
        ex_busy_room "\<lparr>nickname = ''Bob'', isHost = False\<rparr>" "''u-101''" "''hi''" 9 "''Bob''"]
    by (simp add: Let_def)
qed

section \<open>Room capacity\<close>

text \<open>
  C6. In every reachable state every room's members Map holds at most 10 entries, with
  pairwise different keys. A \<^verbatim>\<open>joinRoom\<close> for a room whose Map already holds 10 answers the
  requester with the error \<^verbatim>\<open>Room is full\<close> and returns the socket and the registry
  exactly as they were.
\<close>

theorem members_capped_at_ten:
  "list_all (\<lambda>(k, r). distinct (jm_keys (members r)) \<and> jm_size (members r) \<le> 10)
     (st_rooms (run init ins))
   \<and> (jm_get rooms rc = Some room \<and> jm_size (members room) \<ge> 10 \<longrightarrow>
        joinRoom socket rc nick rooms =
          (socket, rooms, [(ToSocket (sid socket), Error ''Room is full'')]))"
proof (intro conjI impI)
  have "reg_all room_ok (st_rooms (run init ins))"
    by (rule room_ok_reachable)
  then show "list_all (\<lambda>(k, r). distinct (jm_keys (members r)) \<and> jm_size (members r) \<le> 10)
     (st_rooms (run init ins))"
    by (auto simp: reg_all_def room_ok_def list_all_iff)
next
  assume "jm_get rooms rc = Some room \<and> jm_size (members room) \<ge> 10"
  then show "joinRoom socket rc nick rooms =
          (socket, rooms, [(ToSocket (sid socket), Error ''Room is full'')])"
    by (simp add: joinRoom_def)
qed

theorem members_capped_at_ten_witness:
  "list_all (\<lambda>(k, r). distinct (jm_keys (members r)) \<and> jm_size (members r) \<le> 10)
     (st_rooms (run init ex_inputs))
   \<and> (jm_get [(''10000'', ex_full_room)] ''10000'' = Some ex_full_room
      \<and> jm_size (members ex_full_room) \<ge> 10)
   \<and> joinRoom ex_carol ''10000'' ''Carol'' [(''10000'', ex_full_room)] =
       (ex_carol, [(''10000'', ex_full_room)], [(ToSocket ''C'', Error ''Room is full'')])"
proof -
  have g: "jm_get [(''10000'', ex_full_room)] ''10000'' = Some ex_full_room
      \<and> jm_size (members ex_full_room) \<ge> 10"
    by (simp add: jm_get_def jm_size_def ex_full_room_def)
  have c: "sid ex_carol = ''C''"
    by (simp add: ex_carol_def)
  show ?thesis
    using g c
      members_capped_at_ten [of ex_inputs "[(''10000'', ex_full_room)]" "''10000''" ex_full_room
        ex_carol "''Carol''"]
    by simp
qed

section \<open>Room codes and room creation\<close>

text \<open>
  The format of a room code. For every double sample in \<open>[0, 1)\<close> the code generated, in
  double arithmetic, is a string of five decimal digits denoting a number from 10000
  to 99999.
\<close>

lemma generateRoomCode_range:
  assumes "is_double rnd" and "0 \<le> rnd" and "rnd < 1"
  shows "length (generateRoomCode rnd) = 5" and "list_all is_digit (generateRoomCode rnd)"
    and "10000 \<le> parseDec (generateRoomCode rnd)" and "parseDec (generateRoomCode rnd) \<le> 99999"
proof -
  define f where "f = \<lfloor>round_double (10000 + round_double (rnd * 90000))\<rfloor>"
  define n where "n = nat f"
  from assms have d: "round_double rnd = rnd"
    by (simp add: is_double_def)
  from code_number_range [OF d assms(2,3)] have f: "10000 \<le> f" "f \<le> 99999"
    unfolding f_def by blast+
  then have n: "10 ^ 4 \<le> n" "n < 10 ^ Suc 4"
    unfolding n_def by simp_all
  from f have g: "generateRoomCode rnd = digits n"
    unfolding generateRoomCode_def toString_def f_def [symmetric] n_def by simp
  from n show "length (generateRoomCode rnd) = 5"
    unfolding g by (simp only: length_digits)
  show "list_all is_digit (generateRoomCode rnd)"
    unfolding g by (rule digits_all_digit)
  from n show "10000 \<le> parseDec (generateRoomCode rnd)"
    and "parseDec (generateRoomCode rnd) \<le> 99999"
    unfolding g parseDec_digits by simp_all
qed

lemma generateRoomCode_range_example:
  "is_double (6004799503160661 / 18014398509481984)
   \<and> length (generateRoomCode (6004799503160661 / 18014398509481984)) = 5
   \<and> parseDec (generateRoomCode (6004799503160661 / 18014398509481984)) = 40000"
  using generateRoomCode_range(1) [OF is_double_third]
  by (simp add: is_double_third generateRoomCode_third parseDec_def digit_val_def)



text \<open>
  C1 at an input that breaks it. Alice creates a room with the sample 0, which gives
  the code 10000, and Bob joins it. Carol then creates a room and the sample is 0
  again. The code generated is 10000, in use by a live room: nothing is retried and
  nothing is refused. Carol is answered \<^verbatim>\<open>roomCreated\<close> with that code, and the registry
  holds her new room in place of the one Alice and Bob were in.
\<close>

theorem createRoom_collision_overwrites:
  "st_rooms (run init [Connect ''A'', CreateRoomIn ''A'' ''Alice'' 0 0, Connect ''B'',
       JoinRoomIn ''B'' ''10000'' ''Bob'', Connect ''C'']) = [(''10000'', ex_room)]
   \<and> is_double 0 \<and> generateRoomCode 0 = ''10000''
   \<and> st_rooms (fst (step
        (run init [Connect ''A'', CreateRoomIn ''A'' ''Alice'' 0 0, Connect ''B'',
           JoinRoomIn ''B'' ''10000'' ''Bob'', Connect ''C''])
        (CreateRoomIn ''C'' ''Carol'' 0 7))) =
       [(''10000'',
         \<lparr>code = ''10000'', host = ''C'', hostNickname = ''Carol'',
          members = [(''C'', \<lparr>nickname = ''Carol'', isHost = True\<rparr>)],
          currentEpisode = JNull, animeId = JNull,
          videoState = [''isPlaying'' \<mapsto> JBool False, ''currentTime'' \<mapsto> JNum 0,
                        ''lastUpdate'' \<mapsto> JNum 7],
          chat = []\<rparr>)]
   \<and> snd (step
        (run init [Connect ''A'', CreateRoomIn ''A'' ''Alice'' 0 0, Connect ''B'',
           JoinRoomIn ''B'' ''10000'' ''Bob'', Connect ''C''])
        (CreateRoomIn ''C'' ''Carol'' 0 7)) =
       [(ToSocket ''C'', RoomCreated ''10000'' True [\<lparr>nickname = ''Carol'', isHost = True\<rparr>])]"
  by (simp add: init_def createRoom_def joinRoom_def Let_def jm_defs generateRoomCode_0
      is_double_0 ex_room_def)

section \<open>One room per connection\<close>




section \<open>The host flag\<close>

lemma host_count_ids: "host_count ms = length (host_ids ms)"
  by (simp add: host_count_def host_ids_def)

lemma host_ids_Nil: "host_ids [] = []"
  by (simp add: host_ids_def)

lemma host_ids_Cons:
  "host_ids ((a, b) # ms) = (if isHost b then a # host_ids ms else host_ids ms)"
  by (simp add: host_ids_def)

lemma host_ids_update:
  "k \<notin> set (host_ids ms) \<Longrightarrow> \<not> isHost v \<Longrightarrow> host_ids (AList.update k v ms) = host_ids ms"
  by (induction ms) (auto simp: host_ids_Nil host_ids_Cons split: if_splits)

lemma host_ids_delete: "host_ids (AList.delete k ms) = filter (\<lambda>x. x \<noteq> k) (host_ids ms)"
  by (induction ms) (auto simp: host_ids_Nil host_ids_Cons)

lemma host_ok_createRoom:
  "reg_all host_ok rooms \<Longrightarrow> reg_all host_ok (fst (snd (createRoom socket nick rnd now rooms)))"
  by (auto simp: createRoom_def Let_def host_ok_def host_ids_def intro!: reg_all_set)

lemma host_ok_joinRoom:
  assumes "reg_all host_ok rooms"
    and "\<And>room. jm_get rooms rc = Some room \<Longrightarrow> host room \<noteq> sid socket"
  shows "reg_all host_ok (fst (snd (joinRoom socket rc nick rooms)))"
proof (cases "jm_get rooms rc")
  case None
  with assms show ?thesis by (simp add: joinRoom_def)
next
  case (Some room)
  with assms have ok: "host_ok rc room" and nh: "host room \<noteq> sid socket"
    by (auto dest: reg_all_get)
  then have "host_ok rc (room\<lparr>members :=
      jm_set (members room) (sid socket) \<lparr>nickname = nick, isHost = False\<rparr>\<rparr>)"
    by (simp add: host_ok_def jm_set_def host_ids_update)
  with assms Some show ?thesis
    by (simp add: joinRoom_def Let_def reg_all_set)
qed

lemma host_ok_videoAction:
  "reg_all host_ok rooms \<Longrightarrow> reg_all host_ok (fst (videoAction socket action now rooms))"
  by (auto simp: videoAction_def resolveRoom_def Let_def host_ok_def split: option.splits
      dest: reg_all_get intro!: reg_all_set)

lemma host_ok_changeEpisode:
  "reg_all host_ok rooms \<Longrightarrow> reg_all host_ok (fst (changeEpisode socket e a rooms))"
  by (auto simp: changeEpisode_def resolveRoom_def Let_def host_ok_def split: option.splits
      dest: reg_all_get intro!: reg_all_set)

lemma host_ok_chatMessage:
  "reg_all host_ok rooms \<Longrightarrow> reg_all host_ok (fst (chatMessage socket message uuid now rooms))"
  by (auto simp: chatMessage_def resolveRoom_def Let_def host_ok_def split: option.splits
      dest: reg_all_get intro!: reg_all_set)

lemma host_ok_getRoomInfo:
  "reg_all host_ok rooms \<Longrightarrow> reg_all host_ok (fst (getRoomInfo socket rc rooms))"
  by (simp add: getRoomInfo_def split: option.splits)

lemma host_ok_disconnect:
  assumes "reg_all host_ok rooms"
  shows "reg_all host_ok (fst (disconnect socket rooms))"
proof (cases "resolveRoom socket rooms")
  case None
  with assms show ?thesis
    by (auto simp: disconnect_def resolveRoom_def split: option.splits)
next
  case (Some p)
  obtain rc room where p: "p = (rc, room)" by (cases p)
  with Some have b: "roomCode socket = Some rc" and g: "jm_get rooms rc = Some room"
    by (auto simp: resolveRoom_def split: option.splits)
  from assms g have "host_ok rc room"
    by (rule reg_all_get)
  then have ok: "host_ids (members room) = [host room]"
    by (simp add: host_ok_def)
  define ms where "ms = jm_delete (members room) (sid socket)"
  have ids: "host_ids ms = (if host room = sid socket then [] else [host room])"
    by (simp add: ms_def jm_delete_def host_ids_delete ok)
  have a: "host room \<noteq> sid socket \<Longrightarrow> host_ok rc (room\<lparr>members := ms\<rparr>)"
    using ids by (simp add: host_ok_def)
  have h: "host room = sid socket \<Longrightarrow> ms = (k, m) # rest \<Longrightarrow>
      host_ok rc (room\<lparr>host := k, members := jm_set ms k (m\<lparr>isHost := True\<rparr>)\<rparr>)" for k m rest
    using ids by (auto simp: host_ok_def jm_set_def host_ids_def split: if_splits)
  show ?thesis
    using assms b g a h
    by (auto simp: disconnect_def Let_def ms_def [symmetric] jm_size_def jm_keys_def jm_get_def
        split: option.splits list.splits intro!: reg_all_set reg_all_delete)
qed

lemma host_ok_step:
  assumes ok: "reg_all host_ok (st_rooms s)" and nr: "\<not> host_rejoin s i"
  shows "reg_all host_ok (st_rooms (fst (step s i)))"
proof -
  have sel: "x = (a, b, c) \<Longrightarrow> fst (snd x) = b" "y = (d, e) \<Longrightarrow> fst y = d"
    for x :: "socket \<times> room jsmap \<times> emit list" and y :: "room jsmap \<times> emit list" and a b c d e
    by simp_all
  show ?thesis
  proof (cases i)
    case (Connect c)
    with ok show ?thesis by (simp split: option.splits)
  next
    case (CreateRoomIn c nick rnd now)
    with ok show ?thesis
      using host_ok_createRoom [OF ok]
      by (auto split: option.splits prod.splits dest!: sel)
  next
    case (JoinRoomIn c rc nick)
    show ?thesis
    proof (cases "st_sockets s c")
      case None
      with ok JoinRoomIn show ?thesis by simp
    next
      case (Some socket)
      with nr JoinRoomIn have "\<And>room. jm_get (st_rooms s) rc = Some room \<Longrightarrow> host room \<noteq> sid socket"
        by (simp add: host_rejoin_def)
      with ok have "reg_all host_ok (fst (snd (joinRoom socket rc nick (st_rooms s))))"
        by (rule host_ok_joinRoom)
      with Some JoinRoomIn show ?thesis
        by (auto split: prod.splits)
    qed
  next
    case (VideoActionIn c action now)
    with ok show ?thesis
      using host_ok_videoAction [OF ok]
      by (auto split: option.splits prod.splits dest!: sel)
  next
    case (ChangeEpisodeIn c e a)
    with ok show ?thesis
      using host_ok_changeEpisode [OF ok]
      by (auto split: option.splits prod.splits dest!: sel)
  next
    case (ChatMessageIn c message uuid now)
    with ok show ?thesis
      using host_ok_chatMessage [OF ok]
      by (auto split: option.splits prod.splits dest!: sel)
  next
    case (GetRoomInfoIn c rc)
    with ok show ?thesis
      using host_ok_getRoomInfo [OF ok]
      by (auto split: option.splits prod.splits dest!: sel)
  next
    case (DisconnectIn c)
    with ok show ?thesis
      using host_ok_disconnect [OF ok]
      by (auto split: option.splits prod.splits dest!: sel)
  qed
qed

lemma host_ok_run:
  "reg_all host_ok (st_rooms s) \<Longrightarrow> no_host_rejoin s ins \<Longrightarrow>
   reg_all host_ok (st_rooms (run s ins))"
  by (induction ins arbitrary: s) (simp_all add: host_ok_step)

text \<open>
  Along every sequence of inputs free of host re-joins, every room of the registry
  has exactly one member entry flagged host, the one stored under \<^verbatim>\<open>room.host\<close>.
\<close>

lemma host_ok_without_rejoin:
  "no_host_rejoin init ins \<Longrightarrow>
   list_all (\<lambda>(k, r). host_ids (members r) = [host r] \<and> host_count (members r) = 1)
     (st_rooms (run init ins))"
proof -
  assume "no_host_rejoin init ins"
  then have "reg_all host_ok (st_rooms (run init ins))"
    by (intro host_ok_run) (simp_all add: init_def reg_all_def)
  then show ?thesis
    by (auto simp: reg_all_def host_ok_def list_all_iff host_count_ids)
qed

lemma host_ok_without_rejoin_example:
  "no_host_rejoin init ex_inputs
   \<and> map (\<lambda>(k, r). (host_ids (members r), host r, host_count (members r)))
        (st_rooms (run init ex_inputs)) = [([''A''], ''A'', 1)]"
proof -
  have "no_host_rejoin init ex_inputs"
    by (simp add: ex_inputs_def init_def host_rejoin_def createRoom_def joinRoom_def Let_def
        jm_defs generateRoomCode_0)
  then show ?thesis
    using host_ok_without_rejoin [of ex_inputs]
    by (simp add: ex_run_rooms ex_room3_def host_ids_def host_count_def)
qed

text \<open>
  C2 at the input that breaks it. Alice creates room 10000 and then sends \<^verbatim>\<open>joinRoom\<close>
  for it herself. The handler overwrites her own entry with \<^verbatim>\<open>isHost: false\<close> and leaves
  \<^verbatim>\<open>room.host\<close> alone: the room has one member, Alice, still its host, and no entry of
  its members Map is flagged.
\<close>

theorem host_rejoin_loses_flag:
  "st_rooms (run init [Connect ''A'', CreateRoomIn ''A'' ''Alice'' 0 0,
       JoinRoomIn ''A'' ''10000'' ''Alice'']) =
     [(''10000'',
       \<lparr>code = ''10000'', host = ''A'', hostNickname = ''Alice'',
        members = [(''A'', \<lparr>nickname = ''Alice'', isHost = False\<rparr>)],
        currentEpisode = JNull, animeId = JNull,
        videoState = [''isPlaying'' \<mapsto> JBool False, ''currentTime'' \<mapsto> JNum 0,
                      ''lastUpdate'' \<mapsto> JNum 0],
        chat = []\<rparr>)]
   \<and> map (\<lambda>(k, r). (k, jm_size (members r), host r, host_count (members r)))
        (st_rooms (run init [Connect ''A'', CreateRoomIn ''A'' ''Alice'' 0 0,
           JoinRoomIn ''A'' ''10000'' ''Alice''])) =
       [(''10000'', 1, ''A'', 0)]"
  by (simp add: init_def createRoom_def joinRoom_def Let_def jm_defs generateRoomCode_0
      host_count_def)

end
